theory Spec2Isabelle
  imports Main "HOL-Library.Word"
begin

unbundle bit_operations_syntax

section \<open>Size and alignment arithmetic\<close>

text \<open>
  \<^verbatim>\<open>std::size_t\<close> is modelled as a 64-bit word, its width on 64-bit platforms: \<open>+\<close>
  wraps modulo \<open>2 ^ 64\<close>, \<open>\<le>\<close> is the unsigned order. \<^verbatim>\<open>std::uint8_t\<close> is an 8-bit
  word.
\<close>

type_synonym size_t = "64 word"
type_synonym u8 = "8 word"

text \<open>The two template parameters of \<^verbatim>\<open>SmartBuffer<Size, StaticThreshold = 32>\<close>.\<close>

record tparams =
  Size :: size_t
  StaticThreshold :: size_t

text \<open>
  \<^verbatim>\<open>return (size + 7) & ~std::size_t(7);\<close> The function is defined at every word
  length, since the width of \<^verbatim>\<open>std::size_t\<close> is the platform's; the class below uses it
  at \<open>size_t\<close>.
\<close>

definition round_up_to_8 :: "'a::len word \<Rightarrow> 'a word" where
  "round_up_to_8 n = (n + 7) AND NOT 7"

definition ACTUAL_SIZE :: "tparams \<Rightarrow> size_t" where
  "ACTUAL_SIZE T = round_up_to_8 (Size T)"

definition STATIC_THRESHOLD :: "tparams \<Rightarrow> size_t" where
  "STATIC_THRESHOLD T = StaticThreshold T"

definition use_static :: "tparams \<Rightarrow> bool" where
  "use_static T = (ACTUAL_SIZE T \<le> STATIC_THRESHOLD T)"

text \<open>The instantiations the header names: the default threshold and the aliases.\<close>

definition SmartBuffer_default :: "size_t \<Rightarrow> tparams" where
  "SmartBuffer_default n = \<lparr>Size = n, StaticThreshold = 32\<rparr>"

definition SmartBufferStatic64 :: "size_t \<Rightarrow> tparams" where
  "SmartBufferStatic64 n = \<lparr>Size = n, StaticThreshold = 64\<rparr>"

definition SmartBufferAlwaysDynamic :: "size_t \<Rightarrow> tparams" where
  "SmartBufferAlwaysDynamic n = \<lparr>Size = n, StaticThreshold = 0\<rparr>"

text \<open>\<^verbatim>\<open>SIZE_MAX\<close> is the all-ones word.\<close>

definition SmartBufferAlwaysStatic :: "size_t \<Rightarrow> tparams" where
  "SmartBufferAlwaysStatic n = \<lparr>Size = n, StaticThreshold = - 1\<rparr>"

text \<open>
  The formula the specification gives for the actual size, \<open>((s+7)/8)*8\<close>, read in the
  same machine arithmetic. It is compared with \<^const>\<open>ACTUAL_SIZE\<close> below.
\<close>

definition spec_actual_size :: "size_t \<Rightarrow> size_t" where
  "spec_actual_size s = (s + 7) div 8 * 8"

section \<open>Memory: handles, heap regions, raw pointers\<close>

text \<open>
  A handle lives at an object identity (its address, which \<^verbatim>\<open>this != &other\<close> compares);
  \<^verbatim>\<open>buffer_\<close> is either the embedded \<^verbatim>\<open>std::array\<close> or a \<^verbatim>\<open>std::unique_ptr\<close>, which
  is null (\<open>None\<close>) or the address of a heap region. The heap maps the addresses of live
  regions to their bytes. \<open>next_addr\<close> is the address the allocator hands out next and
  \<open>avail\<close> the number of bytes it can still provide: a request beyond it throws
  \<^verbatim>\<open>std::bad_alloc\<close>.
\<close>

type_synonym obj = nat
type_synonym addr = nat

datatype storage = StaticBuffer "u8 list" | DynamicBuffer "addr option"

record state =
  objs :: "obj \<rightharpoonup> storage"
  heap :: "addr \<rightharpoonup> u8 list"
  next_addr :: addr
  avail :: nat

text \<open>
  \<open>BadAlloc\<close> is the exception of a failed allocation. The others are the undefined
  behaviours of the C++ program, made values: an access through a null pointer, an access
  beyond the end of a region, a pointer to no live region (also a second release), and a
  member access to something that is not a handle of the expected storage type.
\<close>

datatype error = BadAlloc | NullDeref | OutOfBounds | InvalidPointer | NoObject

text \<open>What \<^verbatim>\<open>data()\<close> returns: null, the array inside a handle, or a heap region.\<close>

datatype ptr = Null | InObj obj | InHeap addr

definition get_static :: "obj \<Rightarrow> state \<Rightarrow> error + u8 list" where
  "get_static this st =
     (case objs st this of Some (StaticBuffer bs) \<Rightarrow> Inr bs | _ \<Rightarrow> Inl NoObject)"

definition get_dynamic :: "obj \<Rightarrow> state \<Rightarrow> error + addr option" where
  "get_dynamic this st =
     (case objs st this of Some (DynamicBuffer p) \<Rightarrow> Inr p | _ \<Rightarrow> Inl NoObject)"

definition set_buffer :: "obj \<Rightarrow> storage \<Rightarrow> state \<Rightarrow> state" where
  "set_buffer this b st = st\<lparr>objs := (objs st)(this \<mapsto> b)\<rparr>"

definition unique_ptr_get :: "addr option \<Rightarrow> ptr" where
  "unique_ptr_get p = (case p of None \<Rightarrow> Null | Some a \<Rightarrow> InHeap a)"

text \<open>The bytes a pointer points to, up to the end of its region.\<close>

definition region :: "ptr \<Rightarrow> state \<Rightarrow> error + u8 list" where
  "region p st =
     (case p of
        Null \<Rightarrow> Inl NullDeref
      | InObj x \<Rightarrow> (case objs st x of Some (StaticBuffer bs) \<Rightarrow> Inr bs | _ \<Rightarrow> Inl InvalidPointer)
      | InHeap a \<Rightarrow> (case heap st a of Some bs \<Rightarrow> Inr bs | None \<Rightarrow> Inl InvalidPointer))"

definition set_region :: "ptr \<Rightarrow> u8 list \<Rightarrow> state \<Rightarrow> state" where
  "set_region p bs st =
     (case p of
        Null \<Rightarrow> st
      | InObj x \<Rightarrow> st\<lparr>objs := (objs st)(x \<mapsto> StaticBuffer bs)\<rparr>
      | InHeap a \<Rightarrow> st\<lparr>heap := (heap st)(a \<mapsto> bs)\<rparr>)"

text \<open>\<^verbatim>\<open>std::fill_n(p, n, value)\<close>: nothing is touched when \<open>n = 0\<close>.\<close>

definition fill_n :: "ptr \<Rightarrow> nat \<Rightarrow> u8 \<Rightarrow> state \<Rightarrow> error + state" where
  "fill_n p n v st =
     (if n = 0 then Inr st
      else case region p st of
        Inl e \<Rightarrow> Inl e
      | Inr bs \<Rightarrow>
          if length bs < n then Inl OutOfBounds
          else Inr (set_region p (replicate n v @ drop n bs) st))"

text \<open>\<^verbatim>\<open>std::copy_n(src, n, dst)\<close>.\<close>

definition copy_n :: "ptr \<Rightarrow> nat \<Rightarrow> ptr \<Rightarrow> state \<Rightarrow> error + state" where
  "copy_n src n dst st =
     (if n = 0 then Inr st
      else case region src st of
        Inl e \<Rightarrow> Inl e
      | Inr sb \<Rightarrow>
          (case region dst st of
             Inl e \<Rightarrow> Inl e
           | Inr db \<Rightarrow>
               if length sb < n \<or> length db < n then Inl OutOfBounds
               else Inr (set_region dst (take n sb @ drop n db) st)))"

text \<open>
  \<^verbatim>\<open>std::make_unique<std::uint8_t[]>(n)\<close>: a new region of \<open>n\<close> value-initialised (zero)
  bytes, or \<^verbatim>\<open>std::bad_alloc\<close>.
\<close>

definition make_unique :: "nat \<Rightarrow> state \<Rightarrow> error + (addr \<times> state)" where
  "make_unique n st =
     (if avail st < n then Inl BadAlloc
      else Inr (next_addr st,
                st\<lparr>heap := (heap st)(next_addr st \<mapsto> replicate n 0),
                   next_addr := Suc (next_addr st),
                   avail := avail st - n\<rparr>))"

text \<open>\<^verbatim>\<open>delete[]\<close> on a non-null pointer, as the deleter of \<^verbatim>\<open>unique_ptr\<close> calls it.\<close>

definition delete_array :: "addr \<Rightarrow> state \<Rightarrow> error + state" where
  "delete_array a st =
     (case heap st a of
        None \<Rightarrow> Inl InvalidPointer
      | Some bs \<Rightarrow> Inr (st\<lparr>heap := (heap st)(a := None), avail := avail st + length bs\<rparr>))"

text \<open>
  Move assignment of \<^verbatim>\<open>unique_ptr\<close>, \<^verbatim>\<open>reset(other.release())\<close>: the source becomes
  null, the target takes its pointer, and the region the target held is released.
\<close>

definition unique_ptr_move_assign :: "obj \<Rightarrow> obj \<Rightarrow> state \<Rightarrow> error + state" where
  "unique_ptr_move_assign this other st =
     (case get_dynamic other st of
        Inl e \<Rightarrow> Inl e
      | Inr p \<Rightarrow>
          (let st1 = set_buffer other (DynamicBuffer None) st in
           case get_dynamic this st1 of
             Inl e \<Rightarrow> Inl e
           | Inr old \<Rightarrow>
               (let st2 = set_buffer this (DynamicBuffer p) st1 in
                case old of None \<Rightarrow> Inr st2 | Some a \<Rightarrow> delete_array a st2)))"

section \<open>The lifecycle of a handle\<close>

text \<open>Default constructor.\<close>

definition SmartBuffer :: "tparams \<Rightarrow> obj \<Rightarrow> state \<Rightarrow> error + state" where
  "SmartBuffer T this st =
     (if use_static T
      then Inr (set_buffer this (StaticBuffer (replicate (unat (ACTUAL_SIZE T)) 0)) st)
      else case make_unique (unat (ACTUAL_SIZE T)) st of
        Inl e \<Rightarrow> Inl e
      | Inr (a, st1) \<Rightarrow>
          fill_n (InHeap a) (unat (ACTUAL_SIZE T)) 0 (set_buffer this (DynamicBuffer (Some a)) st1))"

text \<open>Copy constructor.\<close>

definition SmartBuffer_copy :: "tparams \<Rightarrow> obj \<Rightarrow> obj \<Rightarrow> state \<Rightarrow> error + state" where
  "SmartBuffer_copy T this other st =
     (if use_static T
      then case get_static other st of
        Inl e \<Rightarrow> Inl e
      | Inr bs \<Rightarrow> Inr (set_buffer this (StaticBuffer bs) st)
      else case make_unique (unat (ACTUAL_SIZE T)) st of
        Inl e \<Rightarrow> Inl e
      | Inr (a, st1) \<Rightarrow>
          (let st2 = set_buffer this (DynamicBuffer (Some a)) st1 in
           case get_dynamic other st2 of
             Inl e \<Rightarrow> Inl e
           | Inr p \<Rightarrow> copy_n (unique_ptr_get p) (unat (ACTUAL_SIZE T)) (InHeap a) st2))"

text \<open>
  Move constructor. Moving a \<^verbatim>\<open>std::array\<close> of bytes copies them; the new
  \<^verbatim>\<open>unique_ptr\<close> starts null and is move-assigned.
\<close>

definition SmartBuffer_move :: "tparams \<Rightarrow> obj \<Rightarrow> obj \<Rightarrow> state \<Rightarrow> error + state" where
  "SmartBuffer_move T this other st =
     (if use_static T
      then case get_static other st of
        Inl e \<Rightarrow> Inl e
      | Inr bs \<Rightarrow> Inr (set_buffer this (StaticBuffer bs) st)
      else unique_ptr_move_assign this other (set_buffer this (DynamicBuffer None) st))"

text \<open>Copy assignment, \<^verbatim>\<open>operator=(const SmartBuffer&)\<close>.\<close>

definition copy_assign :: "tparams \<Rightarrow> obj \<Rightarrow> obj \<Rightarrow> state \<Rightarrow> error + state" where
  "copy_assign T this other st =
     (if this \<noteq> other then
        if use_static T
        then case get_static this st of
          Inl e \<Rightarrow> Inl e
        | Inr _ \<Rightarrow>
            (case get_static other st of
               Inl e \<Rightarrow> Inl e
             | Inr bs \<Rightarrow> Inr (set_buffer this (StaticBuffer bs) st))
        else case get_dynamic this st of
          Inl e \<Rightarrow> Inl e
        | Inr None \<Rightarrow>
            (case make_unique (unat (ACTUAL_SIZE T)) st of
               Inl e \<Rightarrow> Inl e
             | Inr (a, st1) \<Rightarrow>
                 (let st2 = set_buffer this (DynamicBuffer (Some a)) st1 in
                  case get_dynamic other st2 of
                    Inl e \<Rightarrow> Inl e
                  | Inr p \<Rightarrow> copy_n (unique_ptr_get p) (unat (ACTUAL_SIZE T)) (InHeap a) st2))
        | Inr (Some a) \<Rightarrow>
            (case get_dynamic other st of
               Inl e \<Rightarrow> Inl e
             | Inr p \<Rightarrow> copy_n (unique_ptr_get p) (unat (ACTUAL_SIZE T)) (InHeap a) st)
      else Inr st)"

text \<open>Move assignment, \<^verbatim>\<open>operator=(SmartBuffer&&)\<close>.\<close>

definition move_assign :: "tparams \<Rightarrow> obj \<Rightarrow> obj \<Rightarrow> state \<Rightarrow> error + state" where
  "move_assign T this other st =
     (if this \<noteq> other then
        if use_static T
        then case get_static this st of
          Inl e \<Rightarrow> Inl e
        | Inr _ \<Rightarrow>
            (case get_static other st of
               Inl e \<Rightarrow> Inl e
             | Inr bs \<Rightarrow> Inr (set_buffer this (StaticBuffer bs) st))
        else unique_ptr_move_assign this other st
      else Inr st)"

text \<open>The defaulted destructor: the \<^verbatim>\<open>unique_ptr\<close> releases its region unless it is null.\<close>

definition destroy :: "tparams \<Rightarrow> obj \<Rightarrow> state \<Rightarrow> error + state" where
  "destroy T this st =
     (if use_static T
      then case get_static this st of
        Inl e \<Rightarrow> Inl e
      | Inr _ \<Rightarrow> Inr (st\<lparr>objs := (objs st)(this := None)\<rparr>)
      else case get_dynamic this st of
        Inl e \<Rightarrow> Inl e
      | Inr None \<Rightarrow> Inr (st\<lparr>objs := (objs st)(this := None)\<rparr>)
      | Inr (Some a) \<Rightarrow> delete_array a (st\<lparr>objs := (objs st)(this := None)\<rparr>))"

section \<open>The access surface\<close>

text \<open>\<^verbatim>\<open>operator std::uint8_t*()\<close> and \<^verbatim>\<open>data()\<close>.\<close>

definition data :: "tparams \<Rightarrow> obj \<Rightarrow> state \<Rightarrow> error + ptr" where
  "data T this st =
     (if use_static T
      then case get_static this st of Inl e \<Rightarrow> Inl e | Inr _ \<Rightarrow> Inr (InObj this)
      else case get_dynamic this st of Inl e \<Rightarrow> Inl e | Inr p \<Rightarrow> Inr (unique_ptr_get p))"

definition size_buf :: "tparams \<Rightarrow> size_t" where
  "size_buf T = Size T"

definition actual_size :: "tparams \<Rightarrow> size_t" where
  "actual_size T = ACTUAL_SIZE T"

definition is_static :: "tparams \<Rightarrow> bool" where
  "is_static T = use_static T"

definition static_threshold :: "tparams \<Rightarrow> size_t" where
  "static_threshold T = STATIC_THRESHOLD T"

text \<open>\<^verbatim>\<open>operator[]\<close>, \<^verbatim>\<open>data()[index]\<close>, read and written through the reference.\<close>

definition subscript :: "tparams \<Rightarrow> obj \<Rightarrow> size_t \<Rightarrow> state \<Rightarrow> error + u8" where
  "subscript T this index st =
     (case data T this st of
        Inl e \<Rightarrow> Inl e
      | Inr p \<Rightarrow>
          (case region p st of
             Inl e \<Rightarrow> Inl e
           | Inr bs \<Rightarrow> if unat index < length bs then Inr (bs ! unat index) else Inl OutOfBounds))"

definition subscript_assign :: "tparams \<Rightarrow> obj \<Rightarrow> size_t \<Rightarrow> u8 \<Rightarrow> state \<Rightarrow> error + state" where
  "subscript_assign T this index v st =
     (case data T this st of
        Inl e \<Rightarrow> Inl e
      | Inr p \<Rightarrow>
          (case region p st of
             Inl e \<Rightarrow> Inl e
           | Inr bs \<Rightarrow>
               if unat index < length bs then Inr (set_region p (bs[unat index := v]) st)
               else Inl OutOfBounds))"

definition fill :: "tparams \<Rightarrow> obj \<Rightarrow> u8 \<Rightarrow> state \<Rightarrow> error + state" where
  "fill T this v st =
     (case data T this st of Inl e \<Rightarrow> Inl e | Inr p \<Rightarrow> fill_n p (unat (Size T)) v st)"

definition clear :: "tparams \<Rightarrow> obj \<Rightarrow> state \<Rightarrow> error + state" where
  "clear T this st = fill T this 0 st"

definition fill_all :: "tparams \<Rightarrow> obj \<Rightarrow> u8 \<Rightarrow> state \<Rightarrow> error + state" where
  "fill_all T this v st =
     (case data T this st of Inl e \<Rightarrow> Inl e | Inr p \<Rightarrow> fill_n p (unat (ACTUAL_SIZE T)) v st)"

definition clear_all :: "tparams \<Rightarrow> obj \<Rightarrow> state \<Rightarrow> error + state" where
  "clear_all T this st = fill_all T this 0 st"

section \<open>Observations used to state the properties\<close>

text \<open>All bytes behind \<^verbatim>\<open>data()\<close>, logical bytes and padding.\<close>

definition contents :: "tparams \<Rightarrow> obj \<Rightarrow> state \<Rightarrow> error + u8 list" where
  "contents T this st =
     (case data T this st of Inl e \<Rightarrow> Inl e | Inr p \<Rightarrow> region p st)"

text \<open>
  A handle that is not moved-from: it holds one backing region of \<open>actual_size\<close> bytes,
  the embedded array or a live heap region behind a non-null pointer.
\<close>

definition valid :: "tparams \<Rightarrow> obj \<Rightarrow> state \<Rightarrow> bool" where
  "valid T this st =
     (if use_static T
      then (case objs st this of
              Some (StaticBuffer bs) \<Rightarrow> length bs = unat (ACTUAL_SIZE T)
            | _ \<Rightarrow> False)
      else (case objs st this of
              Some (DynamicBuffer (Some a)) \<Rightarrow>
                (case heap st a of Some bs \<Rightarrow> length bs = unat (ACTUAL_SIZE T) | None \<Rightarrow> False)
            | _ \<Rightarrow> False))"

text \<open>A moved-from handle of the heap strategy: its pointer is null.\<close>

definition moved_from :: "tparams \<Rightarrow> obj \<Rightarrow> state \<Rightarrow> bool" where
  "moved_from T this st = (\<not> use_static T \<and> objs st this = Some (DynamicBuffer None))"

text \<open>The allocator never hands out the address of a live region.\<close>

definition heap_ok :: "state \<Rightarrow> bool" where
  "heap_ok st = (\<forall>a \<in> dom (heap st). a < next_addr st)"

text \<open>The mutating operations of the access surface, as data.\<close>

datatype mutation = Write size_t u8 | Fill u8 | Clear | FillAll u8 | ClearAll

fun mutate :: "tparams \<Rightarrow> obj \<Rightarrow> mutation \<Rightarrow> state \<Rightarrow> error + state" where
  "mutate T this (Write i v) st = subscript_assign T this i v st"
| "mutate T this (Fill v) st = fill T this v st"
| "mutate T this Clear st = clear T this st"
| "mutate T this (FillAll v) st = fill_all T this v st"
| "mutate T this ClearAll st = clear_all T this st"

section \<open>Concrete instantiations and states\<close>

text \<open>
  \<^verbatim>\<open>SmartBuffer<13>\<close> is inline with 3 padding bytes, \<^verbatim>\<open>SmartBuffer<100>\<close> is on the heap
  with 4 padding bytes.
\<close>

definition T_inline :: tparams where
  "T_inline = SmartBuffer_default 13"

definition T_heap :: tparams where
  "T_heap = SmartBuffer_default 100"

text \<open>The state before any handle exists.\<close>

definition st0 :: state where
  "st0 = \<lparr>objs = Map.empty, heap = Map.empty, next_addr = 0, avail = 4096\<rparr>"

text \<open>Two inline handles: handle 0 filled with \<open>0xAA\<close>, handle 1 as constructed.\<close>

definition st_inline :: state where
  "st_inline =
     \<lparr>objs = [0 \<mapsto> StaticBuffer (replicate 16 170), 1 \<mapsto> StaticBuffer (replicate 16 0)],
      heap = Map.empty, next_addr = 0, avail = 4096\<rparr>"

text \<open>
  Three heap handles: handle 0 filled with \<open>0xBB\<close>, handle 1 as constructed, handle 2
  moved-from.
\<close>

definition st_heap :: state where
  "st_heap =
     \<lparr>objs = [0 \<mapsto> DynamicBuffer (Some 0), 1 \<mapsto> DynamicBuffer (Some 1), 2 \<mapsto> DynamicBuffer None],
      heap = [0 \<mapsto> replicate 104 187, 1 \<mapsto> replicate 104 0],
      next_addr = 3, avail = 3888\<rparr>"

text \<open>
  \<^verbatim>\<open>SmartBuffer<SIZE_MAX>\<close>: the rounding wraps, the actual size is 0 and the buffer is an
  inline array of no bytes. \<open>st_wrapped\<close> is the state after its default constructor.
\<close>

definition T_wrapped :: tparams where
  "T_wrapped = SmartBuffer_default (- 1)"

definition st_wrapped :: state where
  "st_wrapped =
     \<lparr>objs = [0 \<mapsto> StaticBuffer []], heap = Map.empty, next_addr = 0, avail = 4096\<rparr>"

section \<open>Properties of the size arithmetic\<close>

subsection \<open>Word arithmetic of the rounding\<close>

text \<open>
  The lemmas hold at every word length of at least 4 bits, so that 8 is a value of the
  type; \<^verbatim>\<open>std::size_t\<close> has at least 16.
\<close>

lemma seven_eq_mask: "(7::'a::len word) = mask 3"
  by (simp add: mask_eq_exp_minus_1)

lemma and_not_7_shift: "(x::'a::len word) AND NOT 7 = push_bit 3 (drop_bit 3 x)"
  unfolding seven_eq_mask
  by (rule bit_word_eqI) (auto simp add: bit_simps)

lemma and_not_7_div: "(x::'a::len word) AND NOT 7 = x div 8 * 8"
  unfolding and_not_7_shift
  by (simp add: push_bit_eq_mult drop_bit_eq_div)

lemma eight_less: "3 < LENGTH('a::len) \<Longrightarrow> (8::nat) < 2 ^ LENGTH('a)"
proof -
  assume "3 < LENGTH('a)"
  then have "(2::nat) ^ 4 \<le> 2 ^ LENGTH('a)" by (intro power_increasing) simp_all
  then show ?thesis by simp
qed

lemma take_bit_8: "3 < LENGTH('a::len) \<Longrightarrow> take_bit LENGTH('a) (8::nat) = 8"
  using eight_less [where 'a = 'a] by (simp add: take_bit_nat_eq_self)

lemma take_bit_7: "3 < LENGTH('a::len) \<Longrightarrow> take_bit LENGTH('a) (7::nat) = 7"
  using eight_less [where 'a = 'a] by (simp add: take_bit_nat_eq_self)

lemma unat_word_less: "unat (x::'a::len word) < 2 ^ LENGTH('a)"
  using unsigned_less [of x, where 'a = nat] by simp

lemma unat_div8_mult8:
  assumes "3 < LENGTH('a::len)"
  shows "unat ((x::'a word) div 8 * 8) = unat x div 8 * 8"
proof -
  have "unat x div 8 < 2 ^ LENGTH('a)"
    by (rule le_less_trans [OF div_le_dividend unat_word_less])
  then have "unat x div 8 mod 2 ^ LENGTH('a) = unat x div 8" by simp
  then have "unat (x div 8 * 8) = (unat x div 8 * 8) mod 2 ^ LENGTH('a)"
    by (simp add: unat_word_ariths unat_div take_bit_8 [OF assms])
  moreover have "unat x div 8 * 8 \<le> unat x" by simp
  ultimately show ?thesis using unat_word_less [of x] by simp
qed

lemma unat_round_up_to_8:
  assumes "3 < LENGTH('a::len)"
  shows "unat (round_up_to_8 (n::'a word)) = ((unat n + 7) mod 2 ^ LENGTH('a)) div 8 * 8"
  unfolding round_up_to_8_def and_not_7_div unat_div8_mult8 [OF assms]
  by (simp add: unat_word_ariths take_bit_7 [OF assms])

lemma unat_round_up_to_8_no_wrap:
  assumes "3 < LENGTH('a::len)" and "unat (n::'a word) + 7 < 2 ^ LENGTH('a)"
  shows "unat (round_up_to_8 n) = (unat n + 7) div 8 * 8"
  using assms by (simp add: unat_round_up_to_8)

text \<open>The seven largest sizes: \<open>n + 7\<close> wraps around and the result is 0.\<close>

lemma round_up_to_8_wrap:
  assumes "3 < LENGTH('a::len)" and "\<not> unat (n::'a word) + 7 < 2 ^ LENGTH('a)"
  shows "round_up_to_8 n = 0"
proof -
  define P :: nat where "P = 2 ^ LENGTH('a)"
  have lt: "unat n < P" unfolding P_def by (rule unat_word_less)
  have ge: "P \<le> unat n + 7" using assms(2) by (simp add: P_def)
  have "8 < P" unfolding P_def by (rule eight_less [OF assms(1)])
  have "(unat n + 7) mod P = (unat n + 7 - P) mod P" using ge by (rule le_mod_geq)
  also have "\<dots> = unat n + 7 - P" using lt \<open>8 < P\<close> by simp
  finally have "(unat n + 7) mod P div 8 = 0" using lt by simp
  then have "unat (round_up_to_8 n) = 0"
    unfolding unat_round_up_to_8 [OF assms(1)] P_def by simp
  then show ?thesis by (simp add: unat_eq_0)
qed

lemma round_up_to_8_ge:
  assumes "3 < LENGTH('a::len)" and "unat (n::'a word) + 7 < 2 ^ LENGTH('a)"
  shows "n \<le> round_up_to_8 n"
  using unat_round_up_to_8_no_wrap [OF assms] by (simp add: word_le_nat_alt)

lemma round_up_to_8_mod8:
  assumes "3 < LENGTH('a::len)"
  shows "round_up_to_8 (n::'a word) mod 8 = 0"
  unfolding round_up_to_8_def and_not_7_div
  by (simp add: word_eq_iff_unsigned [where 'a = nat] unat_mod unat_div8_mult8 [OF assms]
      take_bit_8 [OF assms])

lemma round_up_to_8_diff:
  assumes "3 < LENGTH('a::len)"
  shows "round_up_to_8 (n::'a word) - n < 8"
proof (cases "unat n + 7 < 2 ^ LENGTH('a)")
  case True
  have "unat (round_up_to_8 n - n) = unat (round_up_to_8 n) - unat n"
    using round_up_to_8_ge [OF assms True] by (simp add: unat_sub)
  then have "unat (round_up_to_8 n - n) < 8"
    unfolding unat_round_up_to_8_no_wrap [OF assms True] by arith
  then show ?thesis
    by (simp add: word_less_nat_alt take_bit_8 [OF assms])
next
  case False
  define P :: nat where "P = 2 ^ LENGTH('a)"
  have lt: "unat n < P" unfolding P_def by (rule unat_word_less)
  have ge: "P \<le> unat n + 7" using False by (simp add: P_def)
  have "unat (0 - n) = (if unat n \<le> unat (0::'a word) then unat (0::'a word) - unat n
      else unat (0::'a word) + 2 ^ size (0::'a word) - unat n)"
    by (rule unat_sub_if_size)
  then have "unat (0 - n) = (if unat n = 0 then 0 else P - unat n)"
    by (simp add: word_size P_def)
  with lt ge have "unat (0 - n) < 8" by (simp split: if_splits)
  then show ?thesis
    unfolding round_up_to_8_wrap [OF assms False]
    by (simp add: word_less_nat_alt take_bit_8 [OF assms])
qed

subsection \<open>The rounding at \<open>size_t\<close>\<close>

lemma unat_round_up_to_8_size_t:
  "unat (n::size_t) + 7 < 2 ^ 64 \<Longrightarrow> unat (round_up_to_8 n) = (unat n + 7) div 8 * 8"
  using unat_round_up_to_8_no_wrap [of n] by simp

lemma round_up_to_8_wrap_size_t:
  "\<not> unat (n::size_t) + 7 < 2 ^ 64 \<Longrightarrow> round_up_to_8 n = 0"
  using round_up_to_8_wrap [of n] by simp

lemma round_up_to_8_ge_size_t:
  "unat (n::size_t) + 7 < 2 ^ 64 \<Longrightarrow> n \<le> round_up_to_8 n"
  using round_up_to_8_ge [of n] by simp

lemma round_up_to_8_eq_0_iff:
  "round_up_to_8 (n::size_t) = 0 \<longleftrightarrow> n = 0 \<or> \<not> unat n + 7 < 2 ^ 64"
proof (cases "unat n + 7 < 2 ^ 64")
  case True
  have "unat (round_up_to_8 n) = 0 \<longleftrightarrow> unat n = 0"
    unfolding unat_round_up_to_8_size_t [OF True] by auto
  then show ?thesis using True by (simp add: unat_eq_0)
next
  case False
  then show ?thesis by (simp add: round_up_to_8_wrap_size_t)
qed

text \<open>
  The data model's invariant \<open>actual_size \<ge> requested_size\<close>, for every size whose
  rounding does not wrap.
\<close>

lemma Size_le_ACTUAL_SIZE:
  "unat (Size T) + 7 < 2 ^ 64 \<Longrightarrow> unat (Size T) \<le> unat (ACTUAL_SIZE T)"
  using round_up_to_8_ge_size_t [of "Size T"] by (simp add: ACTUAL_SIZE_def word_le_nat_alt)

subsection \<open>The contract of the rounding\<close>

text \<open>
  C1, as stated, at the largest size: \<open>round_up_to_8 SIZE_MAX\<close> is 0, which is not
  greater than or equal to \<open>SIZE_MAX\<close>.
\<close>

theorem round_up_to_8_ge_counterexample:
  "\<not> (- 1 :: size_t) \<le> round_up_to_8 (- 1)"
  by (simp add: round_up_to_8_def)

text \<open>
  C1, amended: for every size \<open>n\<close> of a \<open>w\<close>-bit size type (\<open>w \<ge> 4\<close>), the result of
  \<open>round_up_to_8\<close> is a multiple of 8 and the result minus \<open>n\<close>, modulo \<open>2 ^ w\<close>, is less
  than 8; the result is greater than or equal to \<open>n\<close> for every \<open>n\<close> such that \<open>n + 7\<close>
  does not overflow, that is \<open>n \<le> SIZE_MAX - 7\<close>.
\<close>

theorem round_up_to_8_contract:
  "3 < LENGTH('a::len) \<Longrightarrow>
     (unat (n::'a word) + 7 < 2 ^ LENGTH('a) \<longrightarrow> n \<le> round_up_to_8 n)
   \<and> round_up_to_8 n mod 8 = 0
   \<and> round_up_to_8 n - n < 8"
  using round_up_to_8_ge [of n] round_up_to_8_mod8 [of n] round_up_to_8_diff [of n] by blast

theorem round_up_to_8_contract_witness:
  "3 < LENGTH(64) \<and> unat (33 :: size_t) + 7 < 2 ^ LENGTH(64) \<and> (33 :: size_t) \<le> round_up_to_8 33
   \<and> round_up_to_8 (33 :: size_t) mod 8 = 0 \<and> round_up_to_8 (33 :: size_t) - 33 < 8
   \<and> round_up_to_8 (33 :: size_t) = 40"
  using round_up_to_8_contract [of "33 :: size_t"] by (simp add: round_up_to_8_def)

subsection \<open>Strategy selection\<close>

text \<open>
  C2: at the default threshold 32, for every requested size \<open>s\<close> the actual size is
  \<open>((s+7)/8)*8\<close> and the buffer is inline exactly when the actual size is at most 32; size
  32 is inline, size 33 has actual size 40 and is not inline. At threshold 64, size 64 is
  inline, size 65 has actual size 72 and is not inline.
\<close>

theorem actual_size_and_is_static:
  "actual_size (SmartBuffer_default s) = spec_actual_size s
   \<and> (is_static (SmartBuffer_default s) \<longleftrightarrow> actual_size (SmartBuffer_default s) \<le> 32)
   \<and> is_static (SmartBuffer_default 32)
   \<and> actual_size (SmartBuffer_default 33) = 40
   \<and> \<not> is_static (SmartBuffer_default 33)
   \<and> is_static (SmartBufferStatic64 64)
   \<and> actual_size (SmartBufferStatic64 65) = 72
   \<and> \<not> is_static (SmartBufferStatic64 65)"
  by (simp add: actual_size_def is_static_def use_static_def ACTUAL_SIZE_def STATIC_THRESHOLD_def
      SmartBuffer_default_def SmartBufferStatic64_def spec_actual_size_def and_not_7_div [symmetric])
     (simp add: round_up_to_8_def)

text \<open>The same formula over the natural numbers, where the rounding does not wrap.\<close>

lemma unat_actual_size:
  "unat (Size T) + 7 < 2 ^ 64 \<Longrightarrow> unat (actual_size T) = (unat (Size T) + 7) div 8 * 8"
  by (simp add: actual_size_def ACTUAL_SIZE_def unat_round_up_to_8_size_t)

text \<open>
  C3, at size 0: \<^verbatim>\<open>SmartBufferAlwaysDynamic<0>\<close>, threshold 0, is an inline buffer, since its
  actual size 0 is not greater than the threshold.
\<close>

theorem always_dynamic_zero_is_static:
  "is_static (SmartBufferAlwaysDynamic 0)"
  by (simp add: is_static_def use_static_def ACTUAL_SIZE_def STATIC_THRESHOLD_def
      SmartBufferAlwaysDynamic_def round_up_to_8_def)

text \<open>
  The sizes at which threshold 0 gives an inline buffer are exactly those whose actual
  size is 0; with the threshold \<^verbatim>\<open>SIZE_MAX\<close> every size is inline.
\<close>

lemma always_dynamic_iff:
  "is_static (SmartBufferAlwaysDynamic n) \<longleftrightarrow> n = 0 \<or> \<not> unat n + 7 < 2 ^ 64"
  by (simp add: is_static_def use_static_def ACTUAL_SIZE_def STATIC_THRESHOLD_def
      SmartBufferAlwaysDynamic_def round_up_to_8_eq_0_iff)

lemma always_static: "is_static (SmartBufferAlwaysStatic n)"
  by (simp add: is_static_def use_static_def ACTUAL_SIZE_def STATIC_THRESHOLD_def
      SmartBufferAlwaysStatic_def)

section \<open>Properties of the memory model\<close>

subsection \<open>Pointers, regions and valid handles\<close>

lemma subscript_contents:
  "subscript T this i st =
     (case contents T this st of
        Inl e \<Rightarrow> Inl e
      | Inr bs \<Rightarrow> if unat i < length bs then Inr (bs ! unat i) else Inl OutOfBounds)"
  by (simp add: subscript_def contents_def split: sum.splits)

lemma valid_contents:
  "valid T this st \<Longrightarrow> \<exists>bs. contents T this st = Inr bs \<and> length bs = unat (ACTUAL_SIZE T)"
  by (auto simp add: valid_def contents_def data_def get_static_def get_dynamic_def region_def
      unique_ptr_get_def split: if_splits option.splits storage.splits)

lemma valid_data:
  "valid T this st \<Longrightarrow> \<exists>p. data T this st = Inr p \<and> p \<noteq> Null"
  by (auto simp add: valid_def data_def get_static_def get_dynamic_def
      unique_ptr_get_def split: if_splits option.splits storage.splits)

lemma data_set_region:
  "data T this st = Inr p \<Longrightarrow> data T this (set_region p bs st) = Inr p"
  by (auto simp add: data_def get_static_def get_dynamic_def set_region_def
      unique_ptr_get_def split: if_splits option.splits storage.splits sum.splits ptr.splits)

lemma region_set_region:
  "region p st = Inr bs' \<Longrightarrow> region p (set_region p bs st) = Inr bs"
  by (auto simp add: region_def set_region_def split: ptr.splits option.splits storage.splits)

lemma valid_set_region:
  "valid T this st \<Longrightarrow> data T this st = Inr p \<Longrightarrow> length bs = unat (ACTUAL_SIZE T)
   \<Longrightarrow> valid T this (set_region p bs st)"
  by (auto simp add: valid_def data_def get_static_def get_dynamic_def set_region_def
      unique_ptr_get_def split: if_splits option.splits storage.splits)

lemma fill_n_contents:
  assumes "data T this st = Inr p" and "region p st = Inr bs" and "n \<le> length bs"
  shows "\<exists>st'. fill_n p n v st = Inr st' \<and> data T this st' = Inr p
          \<and> region p st' = Inr (replicate n v @ drop n bs)"
  using assms
  by (auto simp add: fill_n_def data_set_region region_set_region)

lemma default_ctor_static:
  "use_static T \<Longrightarrow> SmartBuffer T this st
     = Inr (set_buffer this (StaticBuffer (replicate (unat (ACTUAL_SIZE T)) 0)) st)"
  by (simp add: SmartBuffer_def)

lemma default_ctor_bad_alloc:
  "\<not> use_static T \<Longrightarrow> avail st < unat (ACTUAL_SIZE T) \<Longrightarrow> SmartBuffer T this st = Inl BadAlloc"
  by (simp add: SmartBuffer_def make_unique_def)

lemmas mem_defs = data_def get_static_def get_dynamic_def set_region_def set_buffer_def
  region_def unique_ptr_get_def contents_def valid_def

lemma mutate_shape:
  assumes "data T c st = Inr p" and "mutate T c m st = Inr st''"
  shows "st'' = st \<or> (\<exists>bs. st'' = set_region p bs st)"
  using assms
  by (cases m)
     (auto simp add: subscript_assign_def fill_def clear_def fill_all_def clear_all_def fill_n_def
       split: sum.splits if_splits)

lemma contents_set_region_other:
  assumes "data T h st = Inr q" and "data T c st = Inr p" and "p \<noteq> q"
  shows "contents T h (set_region p bs st) = contents T h st"
  using assms
  by (auto simp add: mem_defs split: if_splits option.splits storage.splits sum.splits ptr.splits)

lemma valid_set_region_other:
  assumes "data T h st = Inr q" and "data T c st = Inr p" and "p \<noteq> q" and "valid T h st"
  shows "valid T h (set_region p bs st)"
  using assms
  by (auto simp add: mem_defs split: if_splits option.splits storage.splits sum.splits ptr.splits)

lemma mutate_frame:
  assumes "data T h st = Inr q" and "data T c st = Inr p" and "p \<noteq> q"
    and "mutate T c m st = Inr st''"
  shows "contents T h st'' = contents T h st"
  using mutate_shape [OF assms(2) assms(4)] contents_set_region_other [OF assms(1-3)]
  by auto

lemma dynamic_nonzero: "\<not> use_static T \<Longrightarrow> 0 < unat (ACTUAL_SIZE T)"
  by (auto simp add: use_static_def unat_gt_0)

lemma copy_ctor_result:
  assumes "valid T h st" and "heap_ok st" and "c \<noteq> h"
    and "use_static T \<or> unat (ACTUAL_SIZE T) \<le> avail st"
  shows "\<exists>st' p q. SmartBuffer_copy T c h st = Inr st' \<and> valid T c st' \<and> valid T h st'
           \<and> contents T h st' = contents T h st \<and> contents T c st' = contents T h st
           \<and> data T c st' = Inr p \<and> data T h st' = Inr q \<and> p \<noteq> q"
proof (cases "use_static T")
  case True
  with assms(1) obtain bs where h: "objs st h = Some (StaticBuffer bs)"
    "length bs = unat (ACTUAL_SIZE T)"
    by (auto simp add: valid_def split: option.splits storage.splits)
  let ?st' = "set_buffer c (StaticBuffer bs) st"
  have "SmartBuffer_copy T c h st = Inr ?st'"
    using True h by (simp add: SmartBuffer_copy_def get_static_def)
  moreover have "valid T c ?st'" "valid T h ?st'"
    "contents T h ?st' = contents T h st" "contents T c ?st' = contents T h st"
    "data T c ?st' = Inr (InObj c)" "data T h ?st' = Inr (InObj h)"
    using True h assms(3) by (simp_all add: mem_defs)
  ultimately show ?thesis using assms(3) by blast
next
  case False
  with assms obtain a bs where h: "objs st h = Some (DynamicBuffer (Some a))"
    "heap st a = Some bs" "length bs = unat (ACTUAL_SIZE T)" "unat (ACTUAL_SIZE T) \<le> avail st"
    by (auto simp add: valid_def split: option.splits storage.splits)
  from h(2) assms(2) have fresh: "a \<noteq> next_addr st" by (auto simp add: heap_ok_def)
  note nz = dynamic_nonzero [OF False]
  let ?n = "unat (ACTUAL_SIZE T)"
  let ?st' = "st\<lparr>objs := (objs st)(c \<mapsto> DynamicBuffer (Some (next_addr st))),
                 heap := (heap st)(next_addr st \<mapsto> bs),
                 next_addr := Suc (next_addr st), avail := avail st - ?n\<rparr>"
  have "SmartBuffer_copy T c h st = Inr ?st'"
    using False h assms(3) fresh nz
    by (simp add: SmartBuffer_copy_def make_unique_def copy_n_def mem_defs)
  moreover have "valid T c ?st'" "valid T h ?st'"
    "contents T h ?st' = contents T h st" "contents T c ?st' = contents T h st"
    "data T c ?st' = Inr (InHeap (next_addr st))" "data T h ?st' = Inr (InHeap a)"
    using False h assms(3) fresh by (simp_all add: mem_defs)
  ultimately show ?thesis using fresh by blast
qed

text \<open>Copying a moved-from heap handle reads through its null pointer.\<close>

lemma copy_ctor_moved_from:
  assumes "moved_from T h st" and "c \<noteq> h" and "unat (ACTUAL_SIZE T) \<le> avail st"
  shows "SmartBuffer_copy T c h st = Inl NullDeref"
  using assms dynamic_nonzero [of T]
  by (simp add: moved_from_def SmartBuffer_copy_def make_unique_def copy_n_def mem_defs)

subsection \<open>Destruction and copy assignment\<close>

lemma destroy_valid:
  assumes "valid T h st"
  shows "\<exists>st'. destroy T h st = Inr st' \<and> objs st' h = None
    \<and> (\<not> use_static T \<longrightarrow> (\<exists>a. get_dynamic h st = Inr (Some a) \<and> heap st' = (heap st)(a := None)))"
  using assms
  by (auto simp add: destroy_def delete_array_def mem_defs
      split: option.splits storage.splits if_splits)

lemma copy_assign_bad_alloc:
  "\<not> use_static T \<Longrightarrow> this \<noteq> other \<Longrightarrow> moved_from T this st
   \<Longrightarrow> avail st < unat (ACTUAL_SIZE T) \<Longrightarrow> copy_assign T this other st = Inl BadAlloc"
  by (simp add: copy_assign_def moved_from_def get_dynamic_def make_unique_def)

lemma copy_assign_reuse:
  assumes "\<not> use_static T" and "this \<noteq> other" and "valid T other st" and "valid T this st"
  shows "\<exists>st'. copy_assign T this other st = Inr st'
           \<and> valid T this st' \<and> valid T other st'
           \<and> contents T this st' = contents T other st
           \<and> contents T other st' = contents T other st
           \<and> objs st' = objs st \<and> dom (heap st') = dom (heap st)
           \<and> next_addr st' = next_addr st \<and> avail st' = avail st"
proof -
  from assms(1,3) obtain a bs where o: "objs st other = Some (DynamicBuffer (Some a))"
    "heap st a = Some bs" "length bs = unat (ACTUAL_SIZE T)"
    by (auto simp add: valid_def split: option.splits storage.splits)
  from assms(1,4) obtain b cs where t: "objs st this = Some (DynamicBuffer (Some b))"
    "heap st b = Some cs" "length cs = unat (ACTUAL_SIZE T)"
    by (auto simp add: valid_def split: option.splits storage.splits)
  note nz = dynamic_nonzero [OF assms(1)]
  let ?st' = "st\<lparr>heap := (heap st)(b \<mapsto> bs)\<rparr>"
  have "copy_assign T this other st = Inr ?st'"
    using assms(1,2) o t nz by (simp add: copy_assign_def copy_n_def mem_defs)
  moreover have "valid T this ?st'" "valid T other ?st'"
    "contents T this ?st' = contents T other st" "contents T other ?st' = contents T other st"
    "objs ?st' = objs st" "dom (heap ?st') = dom (heap st)"
    "next_addr ?st' = next_addr st" "avail ?st' = avail st"
    using assms(1,2) o t by (auto simp add: mem_defs)
  ultimately show ?thesis by blast
qed

lemma copy_assign_allocate:
  assumes "\<not> use_static T" and "this \<noteq> other" and "valid T other st" and "heap_ok st"
    and "moved_from T this st" and "unat (ACTUAL_SIZE T) \<le> avail st"
  shows "\<exists>st'. copy_assign T this other st = Inr st'
           \<and> valid T this st' \<and> valid T other st'
           \<and> contents T this st' = contents T other st
           \<and> contents T other st' = contents T other st
           \<and> get_dynamic this st' = Inr (Some (next_addr st))
           \<and> dom (heap st') = insert (next_addr st) (dom (heap st))
           \<and> next_addr st' = Suc (next_addr st)"
proof -
  from assms(1,3) obtain a bs where o: "objs st other = Some (DynamicBuffer (Some a))"
    "heap st a = Some bs" "length bs = unat (ACTUAL_SIZE T)"
    by (auto simp add: valid_def split: option.splits storage.splits)
  from assms(5) have t: "objs st this = Some (DynamicBuffer None)"
    by (simp add: moved_from_def)
  from o(2) assms(4) have fresh: "a \<noteq> next_addr st" by (auto simp add: heap_ok_def)
  note nz = dynamic_nonzero [OF assms(1)]
  let ?st' = "st\<lparr>objs := (objs st)(this \<mapsto> DynamicBuffer (Some (next_addr st))),
                 heap := (heap st)(next_addr st \<mapsto> bs),
                 next_addr := Suc (next_addr st), avail := avail st - unat (ACTUAL_SIZE T)\<rparr>"
  have "copy_assign T this other st = Inr ?st'"
    using assms(1,2,6) o t nz fresh
    by (simp add: copy_assign_def make_unique_def copy_n_def mem_defs)
  moreover have "valid T this ?st'" "valid T other ?st'"
    "contents T this ?st' = contents T other st" "contents T other ?st' = contents T other st"
    "get_dynamic this ?st' = Inr (Some (next_addr st))"
    "dom (heap ?st') = insert (next_addr st) (dom (heap st))"
    "next_addr ?st' = Suc (next_addr st)"
    using assms(1,2) o t fresh by (auto simp add: mem_defs)
  ultimately show ?thesis by blast
qed

subsection \<open>Writes and fills\<close>

lemma subscript_assign_read:
  assumes "valid T this st" and "i < actual_size T"
  shows "\<exists>st'. subscript_assign T this i v st = Inr st' \<and> subscript T this i st' = Inr v
           \<and> valid T this st'"
proof -
  from valid_data [OF assms(1)] obtain p where p: "data T this st = Inr p" by blast
  from valid_contents [OF assms(1)] p obtain bs where bs:
    "region p st = Inr bs" "length bs = unat (ACTUAL_SIZE T)" by (auto simp add: contents_def)
  from assms(2) bs(2) have i: "unat i < length bs"
    by (simp add: actual_size_def word_less_nat_alt)
  let ?st' = "set_region p (bs[unat i := v]) st"
  have "subscript_assign T this i v st = Inr ?st'"
    using p bs i by (simp add: subscript_assign_def)
  moreover have "subscript T this i ?st' = Inr v"
    using p bs i by (simp add: subscript_def data_set_region region_set_region)
  moreover have "valid T this ?st'"
    using valid_set_region [OF assms(1) p] bs(2) by simp
  ultimately show ?thesis by blast
qed

lemma fill_contents:
  assumes "valid T this st" and "unat (Size T) \<le> unat (ACTUAL_SIZE T)"
  shows "\<exists>bs st'. contents T this st = Inr bs \<and> length bs = unat (ACTUAL_SIZE T)
           \<and> fill T this v st = Inr st'
           \<and> contents T this st' = Inr (replicate (unat (Size T)) v @ drop (unat (Size T)) bs)
           \<and> valid T this st'"
proof -
  let ?n = "unat (Size T)"
  from valid_data [OF assms(1)] obtain p where p: "data T this st = Inr p" by blast
  from valid_contents [OF assms(1)] p obtain bs where bs:
    "region p st = Inr bs" "length bs = unat (ACTUAL_SIZE T)" by (auto simp add: contents_def)
  let ?bs' = "replicate ?n v @ drop ?n bs"
  have len: "length ?bs' = unat (ACTUAL_SIZE T)" using assms(2) bs(2) by simp
  have "fill T this v st = Inr st \<and> ?bs' = bs
      \<or> fill T this v st = Inr (set_region p ?bs' st)"
    using p bs assms(2) by (auto simp add: fill_def fill_n_def)
  moreover have "contents T this (set_region p ?bs' st) = Inr ?bs'"
    using p bs by (simp add: contents_def data_set_region region_set_region)
  moreover have "valid T this (set_region p ?bs' st)"
    using valid_set_region [OF assms(1) p len] .
  moreover have "contents T this st = Inr bs" using p bs by (simp add: contents_def)
  ultimately show ?thesis using bs(2) assms(1) by auto
qed

lemma fill_all_contents:
  assumes "valid T this st"
  shows "\<exists>st'. fill_all T this v st = Inr st'
           \<and> contents T this st' = Inr (replicate (unat (ACTUAL_SIZE T)) v)
           \<and> valid T this st'"
proof -
  let ?N = "unat (ACTUAL_SIZE T)"
  from valid_data [OF assms(1)] obtain p where p: "data T this st = Inr p" by blast
  from valid_contents [OF assms(1)] p obtain bs where bs:
    "region p st = Inr bs" "length bs = ?N" by (auto simp add: contents_def)
  have "fill_all T this v st = Inr st \<and> bs = replicate ?N v
      \<or> fill_all T this v st = Inr (set_region p (replicate ?N v) st)"
    using p bs by (auto simp add: fill_all_def fill_n_def)
  moreover have "contents T this (set_region p (replicate ?N v) st) = Inr (replicate ?N v)"
    using p bs by (simp add: contents_def data_set_region region_set_region)
  moreover have "valid T this (set_region p (replicate ?N v) st)"
    using valid_set_region [OF assms(1) p] by simp
  moreover have "contents T this st = Inr bs" using p bs by (simp add: contents_def)
  ultimately show ?thesis using assms(1) by auto
qed

lemma nth_fill_logical:
  "i < n \<Longrightarrow> (replicate n v @ drop n bs) ! i = v"
  by (simp add: nth_append)

lemma nth_fill_padding:
  "n \<le> i \<Longrightarrow> i < length bs \<Longrightarrow> (replicate n v @ drop n bs) ! i = bs ! i"
  by (simp add: nth_append)

subsection \<open>The allocator invariant is preserved by every operation\<close>

lemma heap_ok_iff: "heap_ok st \<longleftrightarrow> (\<forall>a bs. heap st a = Some bs \<longrightarrow> a < next_addr st)"
  by (auto simp add: heap_ok_def)

lemma heap_ok_st0: "heap_ok st0"
  by (simp add: heap_ok_def st0_def)

lemma heap_ok_set_buffer: "heap_ok (set_buffer this b st) = heap_ok st"
  by (simp add: heap_ok_iff set_buffer_def)

lemma heap_ok_set_region:
  "heap_ok st \<Longrightarrow> region p st = Inr bs' \<Longrightarrow> heap_ok (set_region p bs st)"
  by (auto simp add: heap_ok_iff set_region_def region_def split: ptr.splits option.splits)

lemma heap_ok_fill_n: "heap_ok st \<Longrightarrow> fill_n p n v st = Inr st' \<Longrightarrow> heap_ok st'"
  by (auto simp add: fill_n_def heap_ok_set_region split: if_splits sum.splits)

lemma heap_ok_copy_n: "heap_ok st \<Longrightarrow> copy_n src n dst st = Inr st' \<Longrightarrow> heap_ok st'"
  by (auto simp add: copy_n_def heap_ok_set_region split: if_splits sum.splits)

lemma heap_ok_make_unique:
  "heap_ok st \<Longrightarrow> make_unique n st = Inr (a, st') \<Longrightarrow> heap_ok st' \<and> heap st a = None"
  by (fastforce simp add: make_unique_def heap_ok_iff split: if_splits)

lemma heap_ok_delete_array: "heap_ok st \<Longrightarrow> delete_array a st = Inr st' \<Longrightarrow> heap_ok st'"
  by (auto simp add: delete_array_def heap_ok_iff split: option.splits if_splits)

lemma heap_ok_unique_ptr_move_assign:
  assumes "heap_ok st" and "unique_ptr_move_assign this other st = Inr st'"
  shows "heap_ok st'"
proof -
  from assms(2) obtain p old where
    r: "(case old of None \<Rightarrow> Inr (set_buffer this (DynamicBuffer p)
            (set_buffer other (DynamicBuffer None) st))
         | Some a \<Rightarrow> delete_array a (set_buffer this (DynamicBuffer p)
            (set_buffer other (DynamicBuffer None) st))) = Inr st'"
    by (auto simp add: unique_ptr_move_assign_def Let_def split: sum.splits)
  have ok: "heap_ok (set_buffer this (DynamicBuffer p) (set_buffer other (DynamicBuffer None) st))"
    using assms(1) by (simp add: heap_ok_set_buffer)
  show ?thesis
  proof (cases old)
    case None
    with r ok show ?thesis by auto
  next
    case (Some a)
    with r heap_ok_delete_array [OF ok] show ?thesis by auto
  qed
qed

lemma heap_ok_alloc_copy:
  assumes "heap_ok st" and "make_unique n st = Inr (a, st1)"
    and "(let st2 = set_buffer this (DynamicBuffer (Some a)) st1 in
           case get_dynamic other st2 of
             Inl e \<Rightarrow> Inl e
           | Inr p \<Rightarrow> copy_n (unique_ptr_get p) n (InHeap a) st2) = Inr st'"
  shows "heap_ok st'"
proof -
  from heap_ok_make_unique [OF assms(1,2)]
  have ok: "heap_ok (set_buffer this (DynamicBuffer (Some a)) st1)"
    by (simp add: heap_ok_set_buffer)
  from assms(3) obtain p where
    "copy_n (unique_ptr_get p) n (InHeap a) (set_buffer this (DynamicBuffer (Some a)) st1) = Inr st'"
    by (auto simp add: Let_def split: sum.splits)
  from heap_ok_copy_n [OF ok this] show ?thesis .
qed

lemma heap_ok_SmartBuffer:
  assumes "heap_ok st" and "SmartBuffer T this st = Inr st'"
  shows "heap_ok st'"
proof (cases "use_static T")
  case True
  with assms show ?thesis by (auto simp add: SmartBuffer_def heap_ok_set_buffer)
next
  case False
  with assms(2) obtain a st1 where
    m: "make_unique (unat (ACTUAL_SIZE T)) st = Inr (a, st1)" and
    f: "fill_n (InHeap a) (unat (ACTUAL_SIZE T)) 0
          (set_buffer this (DynamicBuffer (Some a)) st1) = Inr st'"
    by (auto simp add: SmartBuffer_def split: sum.splits)
  from heap_ok_make_unique [OF assms(1) m]
  have "heap_ok (set_buffer this (DynamicBuffer (Some a)) st1)"
    by (simp add: heap_ok_set_buffer)
  from heap_ok_fill_n [OF this f] show ?thesis .
qed

lemma heap_ok_SmartBuffer_copy:
  assumes "heap_ok st" and "SmartBuffer_copy T this other st = Inr st'"
  shows "heap_ok st'"
proof (cases "use_static T")
  case True
  with assms show ?thesis
    by (auto simp add: SmartBuffer_copy_def heap_ok_set_buffer split: sum.splits)
next
  case False
  with assms(2) obtain a st1 where
    "make_unique (unat (ACTUAL_SIZE T)) st = Inr (a, st1)"
    "(let st2 = set_buffer this (DynamicBuffer (Some a)) st1 in
       case get_dynamic other st2 of
         Inl e \<Rightarrow> Inl e
       | Inr p \<Rightarrow> copy_n (unique_ptr_get p) (unat (ACTUAL_SIZE T)) (InHeap a) st2) = Inr st'"
    by (auto simp add: SmartBuffer_copy_def split: sum.splits)
  from heap_ok_alloc_copy [OF assms(1) this] show ?thesis .
qed

lemma heap_ok_SmartBuffer_move:
  assumes "heap_ok st" and "SmartBuffer_move T this other st = Inr st'"
  shows "heap_ok st'"
proof (cases "use_static T")
  case True
  with assms show ?thesis
    by (auto simp add: SmartBuffer_move_def heap_ok_set_buffer split: sum.splits)
next
  case False
  with assms(2) have
    "unique_ptr_move_assign this other (set_buffer this (DynamicBuffer None) st) = Inr st'"
    by (simp add: SmartBuffer_move_def)
  from heap_ok_unique_ptr_move_assign [OF _ this] assms(1) show ?thesis
    by (simp add: heap_ok_set_buffer)
qed

lemma heap_ok_copy_assign:
  assumes "heap_ok st" and "copy_assign T this other st = Inr st'"
  shows "heap_ok st'"
proof (cases "this = other \<or> use_static T")
  case True
  with assms show ?thesis
    by (auto simp add: copy_assign_def heap_ok_set_buffer split: sum.splits if_splits)
next
  case False
  with assms(2) obtain old where old: "get_dynamic this st = Inr old"
    by (auto simp add: copy_assign_def split: sum.splits)
  show ?thesis
  proof (cases old)
    case None
    with False assms(2) old obtain a st1 where
      "make_unique (unat (ACTUAL_SIZE T)) st = Inr (a, st1)"
      "(let st2 = set_buffer this (DynamicBuffer (Some a)) st1 in
         case get_dynamic other st2 of
           Inl e \<Rightarrow> Inl e
         | Inr p \<Rightarrow> copy_n (unique_ptr_get p) (unat (ACTUAL_SIZE T)) (InHeap a) st2) = Inr st'"
      by (auto simp add: copy_assign_def split: sum.splits)
    from heap_ok_alloc_copy [OF assms(1) this] show ?thesis .
  next
    case (Some a)
    with False assms(2) old obtain p where
      "copy_n (unique_ptr_get p) (unat (ACTUAL_SIZE T)) (InHeap a) st = Inr st'"
      by (auto simp add: copy_assign_def split: sum.splits)
    from heap_ok_copy_n [OF assms(1) this] show ?thesis .
  qed
qed

lemma heap_ok_move_assign:
  assumes "heap_ok st" and "move_assign T this other st = Inr st'"
  shows "heap_ok st'"
proof (cases "this = other \<or> use_static T")
  case True
  with assms show ?thesis
    by (auto simp add: move_assign_def heap_ok_set_buffer split: sum.splits if_splits)
next
  case False
  with assms(2) have "unique_ptr_move_assign this other st = Inr st'"
    by (simp add: move_assign_def)
  from heap_ok_unique_ptr_move_assign [OF assms(1) this] show ?thesis .
qed

lemma heap_ok_destroy: "heap_ok st \<Longrightarrow> destroy T this st = Inr st' \<Longrightarrow> heap_ok st'"
  by (auto simp add: destroy_def heap_ok_iff delete_array_def
      split: if_splits sum.splits option.splits)

lemma heap_ok_mutate:
  assumes "heap_ok st" and "mutate T this m st = Inr st'"
  shows "heap_ok st'"
proof -
  from assms(2) have "(\<exists>p n v. fill_n p n v st = Inr st')
      \<or> (\<exists>p bs bs'. region p st = Inr bs' \<and> st' = set_region p bs st)"
    by (cases m)
       (auto simp add: subscript_assign_def fill_def clear_def fill_all_def clear_all_def
         split: sum.splits if_splits)
  with assms(1) show ?thesis
    by (auto simp add: heap_ok_set_region dest: heap_ok_fill_n)
qed

subsection \<open>The concrete instantiations and states\<close>

lemma T_inline_facts:
  "use_static T_inline" "ACTUAL_SIZE T_inline = 16" "Size T_inline = 13"
  by (simp_all add: T_inline_def SmartBuffer_default_def use_static_def ACTUAL_SIZE_def
      STATIC_THRESHOLD_def round_up_to_8_def)

lemma T_heap_facts:
  "\<not> use_static T_heap" "ACTUAL_SIZE T_heap = 104" "Size T_heap = 100"
  by (simp_all add: T_heap_def SmartBuffer_default_def use_static_def ACTUAL_SIZE_def
      STATIC_THRESHOLD_def round_up_to_8_def)

lemma T_wrapped_facts:
  "use_static T_wrapped" "ACTUAL_SIZE T_wrapped = 0" "Size T_wrapped = - 1"
  by (simp_all add: T_wrapped_def SmartBuffer_default_def use_static_def ACTUAL_SIZE_def
      STATIC_THRESHOLD_def round_up_to_8_def)

lemma st_inline_valid: "valid T_inline 0 st_inline" "valid T_inline 1 st_inline"
  by (simp_all add: valid_def T_inline_facts st_inline_def)

lemma st_heap_valid:
  "valid T_heap 0 st_heap" "valid T_heap 1 st_heap" "moved_from T_heap 2 st_heap"
  "heap_ok st_heap"
  by (simp_all add: valid_def moved_from_def heap_ok_def T_heap_facts st_heap_def)

lemma st_inline_contents:
  "contents T_inline 0 st_inline = Inr (replicate 16 170)"
  "contents T_inline 1 st_inline = Inr (replicate 16 0)"
  by (simp_all add: mem_defs T_inline_facts st_inline_def)

lemma st_heap_contents:
  "contents T_heap 0 st_heap = Inr (replicate 104 187)"
  "contents T_heap 1 st_heap = Inr (replicate 104 0)"
  by (simp_all add: mem_defs T_heap_facts st_heap_def)

text \<open>Both states are reached from the empty state by the operations themselves.\<close>

lemma st_inline_reachable:
  "\<exists>s1 s2. SmartBuffer T_inline 0 st0 = Inr s1 \<and> SmartBuffer T_inline 1 s1 = Inr s2
     \<and> fill_all T_inline 0 170 s2 = Inr st_inline"
  by (simp add: SmartBuffer_def fill_all_def fill_n_def mem_defs T_inline_facts st0_def
      st_inline_def fun_upd_twist)

lemma st_heap_reachable:
  "\<exists>s1 s2 s3 s4 s5. SmartBuffer T_heap 0 st0 = Inr s1 \<and> SmartBuffer T_heap 1 s1 = Inr s2
     \<and> fill_all T_heap 0 187 s2 = Inr s3 \<and> SmartBuffer T_heap 2 s3 = Inr s4
     \<and> SmartBuffer_move T_heap 3 2 s4 = Inr s5 \<and> destroy T_heap 3 s5 = Inr st_heap"
  apply (simp add: SmartBuffer_def fill_all_def fill_n_def mem_defs T_heap_facts st0_def
      st_heap_def make_unique_def SmartBuffer_move_def unique_ptr_move_assign_def destroy_def
      delete_array_def)
  apply (auto simp add: fun_eq_iff)
  done

section \<open>Properties of the lifecycle and the access surface\<close>

text \<open>
  C4: a default-constructed buffer of any size and threshold has all \<open>actual_size\<close> bytes,
  logical bytes and padding, equal to 0. The constructor returns a handle whenever the
  buffer is inline or the allocator can provide \<open>actual_size\<close> bytes; otherwise it throws
  (\<open>default_ctor_bad_alloc\<close>) and there is no buffer.
\<close>

theorem default_ctor_zero:
  assumes "use_static T \<or> unat (ACTUAL_SIZE T) \<le> avail st"
  shows "\<exists>st'. SmartBuffer T this st = Inr st' \<and> valid T this st'
           \<and> contents T this st' = Inr (replicate (unat (actual_size T)) 0)
           \<and> (\<forall>i. i < actual_size T \<longrightarrow> subscript T this i st' = Inr 0)"
proof (cases "use_static T")
  case True
  then show ?thesis
    by (simp add: SmartBuffer_def subscript_contents actual_size_def valid_def contents_def
        data_def get_static_def set_buffer_def region_def word_less_nat_alt)
next
  case False
  with assms have "unat (ACTUAL_SIZE T) \<le> avail st" by simp
  with False show ?thesis
    by (simp add: SmartBuffer_def subscript_contents actual_size_def valid_def contents_def
        data_def get_dynamic_def set_buffer_def region_def word_less_nat_alt make_unique_def
        fill_n_def set_region_def unique_ptr_get_def)
qed

theorem default_ctor_zero_witness:
  "unat (ACTUAL_SIZE T_heap) \<le> avail st0
   \<and> (\<exists>st'. SmartBuffer T_heap 0 st0 = Inr st' \<and> valid T_heap 0 st'
          \<and> contents T_heap 0 st' = Inr (replicate 104 0)
          \<and> subscript T_heap 0 103 st' = Inr 0)"
proof -
  have h: "use_static T_heap \<or> unat (ACTUAL_SIZE T_heap) \<le> avail st0"
    by (simp add: T_heap_facts st0_def)
  have "(103 :: size_t) < actual_size T_heap"
    by (simp add: actual_size_def T_heap_facts)
  with default_ctor_zero [OF h, of 0] show ?thesis
    by (auto simp add: T_heap_facts st0_def actual_size_def)
qed

text \<open>
  C5: copy-constructing a handle \<open>c\<close> from a non-moved-from handle \<open>h\<close> yields a valid handle
  with \<open>c[i] == h[i]\<close> at every index of the region, the indices in \<open>[0, size())\<close>
  among them, and \<open>h\<close> itself is unchanged; afterwards no mutation of \<open>c\<close> (a byte
  written, \<open>fill\<close>, \<open>clear\<close>, \<open>fill_all\<close>, \<open>clear_all\<close>) changes a byte of \<open>h\<close>, and no
  mutation of \<open>h\<close> changes a byte of \<open>c\<close>.
\<close>

theorem copy_ctor_independent:
  assumes "valid T h st" and "heap_ok st" and "c \<noteq> h"
    and "use_static T \<or> unat (ACTUAL_SIZE T) \<le> avail st"
  shows "\<exists>st'. SmartBuffer_copy T c h st = Inr st'
           \<and> valid T c st' \<and> valid T h st'
           \<and> contents T c st' = contents T h st \<and> contents T h st' = contents T h st
           \<and> (\<forall>i. i < actual_size T \<longrightarrow>
                 (\<exists>v. subscript T h i st = Inr v \<and> subscript T c i st' = Inr v
                      \<and> subscript T h i st' = Inr v))
           \<and> (size_buf T \<le> actual_size T \<longrightarrow>
                (\<forall>i. i < size_buf T \<longrightarrow> (\<exists>v. subscript T c i st' = Inr v \<and> subscript T h i st' = Inr v)))
           \<and> (\<forall>m st''. mutate T c m st' = Inr st'' \<longrightarrow> contents T h st'' = contents T h st')
           \<and> (\<forall>m st''. mutate T h m st' = Inr st'' \<longrightarrow> contents T c st'' = contents T c st')"
proof -
  from copy_ctor_result [OF assms] obtain st' p q where r:
    "SmartBuffer_copy T c h st = Inr st'" "valid T c st'" "valid T h st'"
    "contents T h st' = contents T h st" "contents T c st' = contents T h st"
    "data T c st' = Inr p" "data T h st' = Inr q" "p \<noteq> q"
    by blast
  from valid_contents [OF assms(1)] obtain bs where bs:
    "contents T h st = Inr bs" "length bs = unat (ACTUAL_SIZE T)" by blast
  have reads: "\<forall>i. i < actual_size T \<longrightarrow>
      (\<exists>v. subscript T h i st = Inr v \<and> subscript T c i st' = Inr v \<and> subscript T h i st' = Inr v)"
    using bs r(4,5) by (simp add: subscript_contents actual_size_def word_less_nat_alt)
  then have logical: "size_buf T \<le> actual_size T \<longrightarrow>
      (\<forall>i. i < size_buf T \<longrightarrow> (\<exists>v. subscript T c i st' = Inr v \<and> subscript T h i st' = Inr v))"
    by (meson less_le_trans)
  have m1: "\<forall>m st''. mutate T c m st' = Inr st'' \<longrightarrow> contents T h st'' = contents T h st'"
    using mutate_frame [OF r(7) r(6) r(8)] by blast
  have m2: "\<forall>m st''. mutate T h m st' = Inr st'' \<longrightarrow> contents T c st'' = contents T c st'"
    using mutate_frame [OF r(6) r(7) r(8) [symmetric]] by blast
  from r(1-5) reads logical m1 m2 show ?thesis by blast
qed

theorem copy_ctor_independent_witness:
  "valid T_heap 0 st_heap \<and> heap_ok st_heap \<and> unat (ACTUAL_SIZE T_heap) \<le> avail st_heap
   \<and> size_buf T_heap \<le> actual_size T_heap
   \<and> (\<exists>st' st1 st2. SmartBuffer_copy T_heap 3 0 st_heap = Inr st'
          \<and> subscript T_heap 3 99 st' = Inr 187 \<and> subscript T_heap 0 99 st' = Inr 187
          \<and> subscript_assign T_heap 3 5 255 st' = Inr st1
          \<and> subscript T_heap 3 5 st1 = Inr 255
          \<and> contents T_heap 0 st1 = Inr (replicate 104 187)
          \<and> fill T_heap 0 17 st' = Inr st2
          \<and> contents T_heap 0 st2 = Inr (replicate 100 17 @ replicate 4 187)
          \<and> contents T_heap 3 st2 = Inr (replicate 104 187))"
proof -
  have av: "unat (ACTUAL_SIZE T_heap) \<le> avail st_heap"
    by (simp add: T_heap_facts st_heap_def)
  then have h: "use_static T_heap \<or> unat (ACTUAL_SIZE T_heap) \<le> avail st_heap" by simp
  have ne: "(3::nat) \<noteq> 0" by simp
  have le: "size_buf T_heap \<le> actual_size T_heap"
    by (simp add: size_buf_def actual_size_def T_heap_facts)
  have le': "unat (Size T_heap) \<le> unat (ACTUAL_SIZE T_heap)"
    by (simp add: T_heap_facts)
  have i5: "(5 :: size_t) < actual_size T_heap" and i99: "(99 :: size_t) < size_buf T_heap"
    by (simp_all add: size_buf_def actual_size_def T_heap_facts)
  from copy_ctor_independent [OF st_heap_valid(1) st_heap_valid(4) ne h]
  obtain st' where st':
    "SmartBuffer_copy T_heap 3 0 st_heap = Inr st'" "valid T_heap 3 st'" "valid T_heap 0 st'"
    "contents T_heap 3 st' = contents T_heap 0 st_heap"
    "contents T_heap 0 st' = contents T_heap 0 st_heap"
    "size_buf T_heap \<le> actual_size T_heap \<longrightarrow>
       (\<forall>i. i < size_buf T_heap \<longrightarrow>
          (\<exists>v. subscript T_heap 3 i st' = Inr v \<and> subscript T_heap 0 i st' = Inr v))"
    "\<forall>m st''. mutate T_heap 3 m st' = Inr st'' \<longrightarrow> contents T_heap 0 st'' = contents T_heap 0 st'"
    "\<forall>m st''. mutate T_heap 0 m st' = Inr st'' \<longrightarrow> contents T_heap 3 st'' = contents T_heap 3 st'"
    by blast
  from st'(6) le i99 obtain v where v:
    "subscript T_heap 3 99 st' = Inr v" "subscript T_heap 0 99 st' = Inr v" by blast
  from v(2) st'(5) have "v = 187" by (simp add: subscript_contents st_heap_contents)
  with v have r: "subscript T_heap 3 99 st' = Inr 187" "subscript T_heap 0 99 st' = Inr 187"
    by simp_all
  from subscript_assign_read [OF st'(2) i5, of 255] obtain st1 where st1:
    "subscript_assign T_heap 3 5 255 st' = Inr st1" "subscript T_heap 3 5 st1 = Inr 255"
    by blast
  from st'(7) st1(1) have "contents T_heap 0 st1 = contents T_heap 0 st'"
    using mutate.simps(1) [of T_heap 3 5 255 st'] by metis
  with st'(5) have c1: "contents T_heap 0 st1 = Inr (replicate 104 187)"
    by (simp add: st_heap_contents)
  from fill_contents [OF st'(3) le', of 17] st'(5) obtain st2 where st2:
    "fill T_heap 0 17 st' = Inr st2"
    "contents T_heap 0 st2 = Inr (replicate 100 17 @ replicate 4 187)"
    by (auto simp add: st_heap_contents T_heap_facts)
  from st'(8) st2(1) have "contents T_heap 3 st2 = contents T_heap 3 st'"
    using mutate.simps(2) [of T_heap 0 17 st'] by metis
  with st'(4) have c2: "contents T_heap 3 st2 = Inr (replicate 104 187)"
    by (simp add: st_heap_contents)
  from st'(1) r st1 c1 st2 c2 st_heap_valid(1,4) av le show ?thesis by blast
qed

text \<open>
  C6: move-constructing \<open>h'\<close> from a non-moved-from handle \<open>h\<close> with \<open>h[i] == v\<close> yields
  \<open>h'[i] == v\<close>. Nothing is allocated and no heap region is copied: the heap, the
  allocator's next address and its budget are unchanged, and in the heap case \<open>h'\<close> holds
  the very pointer \<open>h\<close> held, while \<open>h\<close> is left null.
\<close>

theorem move_ctor_transfers:
  assumes "valid T h st" and "h' \<noteq> h" and "subscript T h i st = Inr v"
  shows "\<exists>st'. SmartBuffer_move T h' h st = Inr st'
           \<and> subscript T h' i st' = Inr v
           \<and> valid T h' st' \<and> contents T h' st' = contents T h st
           \<and> heap st' = heap st \<and> next_addr st' = next_addr st \<and> avail st' = avail st
           \<and> (\<not> use_static T \<longrightarrow> get_dynamic h' st' = get_dynamic h st \<and> moved_from T h st')"
proof (cases "use_static T")
  case True
  with assms(1) obtain bs where h: "objs st h = Some (StaticBuffer bs)"
    "length bs = unat (ACTUAL_SIZE T)"
    by (auto simp add: valid_def split: option.splits storage.splits)
  let ?st' = "set_buffer h' (StaticBuffer bs) st"
  have "SmartBuffer_move T h' h st = Inr ?st'"
    using True h by (simp add: SmartBuffer_move_def get_static_def)
  moreover have c: "contents T h' ?st' = contents T h st"
    using True h assms(2) by (simp add: mem_defs)
  moreover have "subscript T h' i ?st' = Inr v"
    using assms(3) c by (simp add: subscript_contents)
  moreover have "valid T h' ?st'" "heap ?st' = heap st" "next_addr ?st' = next_addr st"
    "avail ?st' = avail st"
    using True h by (simp_all add: mem_defs)
  ultimately show ?thesis using True by blast
next
  case False
  with assms(1) obtain a bs where h: "objs st h = Some (DynamicBuffer (Some a))"
    "heap st a = Some bs" "length bs = unat (ACTUAL_SIZE T)"
    by (auto simp add: valid_def split: option.splits storage.splits)
  let ?st' = "st\<lparr>objs := (objs st)(h \<mapsto> DynamicBuffer None, h' \<mapsto> DynamicBuffer (Some a))\<rparr>"
  have "SmartBuffer_move T h' h st = Inr ?st'"
    using False h assms(2)
    by (simp add: SmartBuffer_move_def unique_ptr_move_assign_def get_dynamic_def set_buffer_def
        fun_upd_twist)
  moreover have c: "contents T h' ?st' = contents T h st"
    using False h assms(2) by (simp add: mem_defs)
  moreover have "subscript T h' i ?st' = Inr v"
    using assms(3) c by (simp add: subscript_contents)
  moreover have "valid T h' ?st'" "heap ?st' = heap st" "next_addr ?st' = next_addr st"
    "avail ?st' = avail st" "get_dynamic h' ?st' = get_dynamic h st" "moved_from T h ?st'"
    using False h assms(2) by (simp_all add: mem_defs moved_from_def)
  ultimately show ?thesis by blast
qed

theorem move_ctor_transfers_witness:
  "valid T_heap 0 st_heap \<and> subscript T_heap 0 50 st_heap = Inr 187
   \<and> (\<exists>st'. SmartBuffer_move T_heap 3 0 st_heap = Inr st'
          \<and> subscript T_heap 3 50 st' = Inr 187
          \<and> heap st' = heap st_heap \<and> next_addr st' = next_addr st_heap
          \<and> get_dynamic 3 st' = Inr (Some 0) \<and> moved_from T_heap 0 st')"
proof -
  have r: "subscript T_heap 0 50 st_heap = Inr 187"
    by (simp add: subscript_contents st_heap_contents)
  have ne: "(3::nat) \<noteq> 0" by simp
  have g: "get_dynamic 0 st_heap = Inr (Some 0)"
    by (simp add: get_dynamic_def st_heap_def)
  from move_ctor_transfers [OF st_heap_valid(1) ne r] g T_heap_facts(1) r st_heap_valid(1)
  show ?thesis by auto
qed

text \<open>
  C7: copy-assigning a handle to itself and move-assigning a handle to itself are
  no-ops: the state after is the state before, so every byte of the handle is unchanged,
  the handle is valid exactly when it was, and the heap is untouched (nothing is released).
\<close>

theorem self_assignment_noop:
  "(\<exists>st'. copy_assign T h h st = Inr st' \<and> st' = st
        \<and> contents T h st' = contents T h st \<and> valid T h st' = valid T h st
        \<and> heap st' = heap st)
   \<and> (\<exists>st'. move_assign T h h st = Inr st' \<and> st' = st
        \<and> contents T h st' = contents T h st \<and> valid T h st' = valid T h st
        \<and> heap st' = heap st)"
  by (simp add: copy_assign_def move_assign_def)

theorem self_assignment_noop_witness:
  "copy_assign T_heap 0 0 st_heap = Inr st_heap \<and> move_assign T_heap 0 0 st_heap = Inr st_heap
   \<and> contents T_heap 0 st_heap = Inr (replicate 104 187)
   \<and> (\<exists>st'. destroy T_heap 0 st_heap = Inr st' \<and> heap st' 0 = None
          \<and> delete_array 0 st' = Inl InvalidPointer)"
proof -
  from destroy_valid [OF st_heap_valid(1)] T_heap_facts(1)
  have "\<exists>st'. destroy T_heap 0 st_heap = Inr st' \<and> heap st' 0 = None"
    by (auto simp add: get_dynamic_def st_heap_def)
  then have "\<exists>st'. destroy T_heap 0 st_heap = Inr st' \<and> heap st' 0 = None
          \<and> delete_array 0 st' = Inl InvalidPointer"
    by (auto simp add: delete_array_def)
  with self_assignment_noop [of T_heap 0 st_heap] st_heap_contents(1) show ?thesis by auto
qed

text \<open>
  C8, as stated, at \<^verbatim>\<open>SmartBuffer<SIZE_MAX>\<close>: the default constructor yields a valid
  handle whose region has \<open>actual_size() = 0\<close> bytes, fewer than \<open>size()\<close>, and on it
  \<open>fill\<close> and \<open>clear\<close> write beyond the end of the region instead of writing the
  \<open>size()\<close> logical bytes.
\<close>

theorem fill_wrapped_size_counterexample:
  "SmartBuffer T_wrapped 0 st0 = Inr st_wrapped
   \<and> valid T_wrapped 0 st_wrapped
   \<and> \<not> size_buf T_wrapped \<le> actual_size T_wrapped
   \<and> fill T_wrapped 0 85 st_wrapped = Inl OutOfBounds
   \<and> clear T_wrapped 0 st_wrapped = Inl OutOfBounds"
  by (simp add: SmartBuffer_def fill_def clear_def fill_n_def mem_defs T_wrapped_facts
      size_buf_def actual_size_def st0_def st_wrapped_def unat_gt_0)

text \<open>
  C8, amended: on a non-moved-from handle whose requested size does not exceed its actual
  size, that is for every \<open>Size \<le> SIZE_MAX - 7\<close>, \<open>fill v\<close> writes \<open>v\<close> to exactly the
  \<open>size()\<close> logical bytes and leaves every padding byte in \<open>[size(), actual_size())\<close> as
  it was; \<open>clear\<close> is \<open>fill 0\<close>, so \<open>fill v\<close> followed by \<open>clear\<close> leaves the logical
  bytes 0; \<open>fill_all v\<close> and \<open>clear_all\<close> write all \<open>actual_size()\<close> bytes, padding
  included.
\<close>

theorem fill_and_clear_frame:
  assumes "valid T this st" and "size_buf T \<le> actual_size T"
  shows "\<exists>bs st1 st2 st3 st4.
           contents T this st = Inr bs \<and> length bs = unat (actual_size T)
         \<and> fill T this v st = Inr st1
         \<and> contents T this st1 = Inr (replicate (unat (size_buf T)) v @ drop (unat (size_buf T)) bs)
         \<and> (\<forall>i. i < size_buf T \<longrightarrow> subscript T this i st1 = Inr v)
         \<and> (\<forall>i. size_buf T \<le> i \<and> i < actual_size T \<longrightarrow>
                subscript T this i st1 = subscript T this i st)
         \<and> clear T this st = fill T this 0 st
         \<and> clear T this st1 = Inr st2
         \<and> contents T this st2 = Inr (replicate (unat (size_buf T)) 0 @ drop (unat (size_buf T)) bs)
         \<and> (\<forall>i. i < size_buf T \<longrightarrow> subscript T this i st2 = Inr 0)
         \<and> fill_all T this v st = Inr st3
         \<and> contents T this st3 = Inr (replicate (unat (actual_size T)) v)
         \<and> clear_all T this st = Inr st4
         \<and> contents T this st4 = Inr (replicate (unat (actual_size T)) 0)"
proof -
  let ?n = "unat (Size T)" and ?N = "unat (ACTUAL_SIZE T)"
  from assms(2) have le: "?n \<le> ?N"
    by (simp add: size_buf_def actual_size_def word_le_nat_alt)
  from fill_contents [OF assms(1) le, of v] obtain bs st1 where st1:
    "contents T this st = Inr bs" "length bs = ?N" "fill T this v st = Inr st1"
    "contents T this st1 = Inr (replicate ?n v @ drop ?n bs)" "valid T this st1"
    by blast
  from fill_contents [OF st1(5) le, of 0] st1(4) obtain st2 where st2:
    "clear T this st1 = Inr st2" "contents T this st2 = Inr (replicate ?n 0 @ drop ?n bs)"
    by (auto simp add: clear_def)
  from fill_all_contents [OF assms(1), of v] obtain st3 where st3:
    "fill_all T this v st = Inr st3" "contents T this st3 = Inr (replicate ?N v)"
    by blast
  from fill_all_contents [OF assms(1), of 0] obtain st4 where st4:
    "clear_all T this st = Inr st4" "contents T this st4 = Inr (replicate ?N 0)"
    by (auto simp add: clear_all_def)
  have logical: "\<forall>i. i < size_buf T \<longrightarrow> subscript T this i st1 = Inr v"
    using st1(2,4) le
    by (simp add: subscript_contents size_buf_def word_less_nat_alt nth_fill_logical)
  have logical0: "\<forall>i. i < size_buf T \<longrightarrow> subscript T this i st2 = Inr 0"
    using st1(2) st2(2) le
    by (simp add: subscript_contents size_buf_def word_less_nat_alt nth_fill_logical)
  have padding: "\<forall>i. size_buf T \<le> i \<and> i < actual_size T \<longrightarrow>
      subscript T this i st1 = subscript T this i st"
    using st1(1,2,4) le
    by (simp add: subscript_contents size_buf_def actual_size_def word_less_nat_alt
        word_le_nat_alt nth_fill_padding)
  have "clear T this st = fill T this 0 st" by (simp add: clear_def)
  with st1(1-4) st2 st3 st4 logical logical0 padding show ?thesis
    unfolding size_buf_def actual_size_def by blast
qed

theorem fill_and_clear_frame_witness:
  "valid T_inline 1 st_inline \<and> size_buf T_inline \<le> actual_size T_inline
   \<and> (\<exists>st1 st2 st3. fill T_inline 1 85 st_inline = Inr st1
         \<and> contents T_inline 1 st1 = Inr (replicate 13 85 @ replicate 3 0)
         \<and> subscript T_inline 1 12 st1 = Inr 85
         \<and> subscript T_inline 1 13 st1 = Inr 0
         \<and> clear T_inline 1 st1 = Inr st2
         \<and> contents T_inline 1 st2 = Inr (replicate 13 0 @ replicate 3 0)
         \<and> fill_all T_inline 1 85 st_inline = Inr st3
         \<and> contents T_inline 1 st3 = Inr (replicate 16 85))"
proof -
  have le: "size_buf T_inline \<le> actual_size T_inline"
    by (simp add: size_buf_def actual_size_def T_inline_facts)
  have i12: "(12 :: size_t) < size_buf T_inline"
    and i13: "size_buf T_inline \<le> (13 :: size_t) \<and> 13 < actual_size T_inline"
    by (simp_all add: size_buf_def actual_size_def T_inline_facts)
  have r13: "subscript T_inline 1 13 st_inline = Inr 0"
    using st_inline_contents(2) by (simp add: subscript_contents)
  from fill_and_clear_frame [OF st_inline_valid(2) le, of 85]
  obtain bs st1 st2 st3 where f:
    "contents T_inline 1 st_inline = Inr bs"
    "fill T_inline 1 85 st_inline = Inr st1"
    "contents T_inline 1 st1 = Inr (replicate (unat (size_buf T_inline)) 85 @ drop (unat (size_buf T_inline)) bs)"
    "\<forall>i. i < size_buf T_inline \<longrightarrow> subscript T_inline 1 i st1 = Inr 85"
    "\<forall>i. size_buf T_inline \<le> i \<and> i < actual_size T_inline \<longrightarrow>
        subscript T_inline 1 i st1 = subscript T_inline 1 i st_inline"
    "clear T_inline 1 st1 = Inr st2"
    "contents T_inline 1 st2 = Inr (replicate (unat (size_buf T_inline)) 0 @ drop (unat (size_buf T_inline)) bs)"
    "fill_all T_inline 1 85 st_inline = Inr st3"
    "contents T_inline 1 st3 = Inr (replicate (unat (actual_size T_inline)) 85)"
    by blast
  from f(1) st_inline_contents(2) have bs: "bs = replicate 16 0" by simp
  from f(4) i12 have a: "subscript T_inline 1 12 st1 = Inr 85" by blast
  from f(5) i13 r13 have b: "subscript T_inline 1 13 st1 = Inr 0" by metis
  from f(3,7,9) bs have c:
    "contents T_inline 1 st1 = Inr (replicate 13 85 @ replicate 3 0)"
    "contents T_inline 1 st2 = Inr (replicate 13 0 @ replicate 3 0)"
    "contents T_inline 1 st3 = Inr (replicate 16 85)"
    by (simp_all add: size_buf_def actual_size_def T_inline_facts)
  from st_inline_valid(2) le f(2,6,8) a b c show ?thesis by blast
qed

text \<open>
  C9: copy assignment onto a distinct target, heap case, from a non-moved-from source.
  A target that holds a region keeps it: nothing is allocated, the set of live regions
  and every handle's pointer are unchanged. A target that holds none (moved-from) gets
  one newly allocated region. Either way the target afterwards is valid, that is it
  holds one live region of \<open>actual_size\<close> bytes, its content equals the source's in all
  \<open>actual_size\<close> bytes, and the source is unchanged.
\<close>

theorem copy_assign_heap:
  assumes "\<not> use_static T" and "this \<noteq> other" and "valid T other st" and "heap_ok st"
    and "valid T this st \<or> (moved_from T this st \<and> unat (ACTUAL_SIZE T) \<le> avail st)"
  shows "\<exists>st'. copy_assign T this other st = Inr st'
           \<and> valid T this st'
           \<and> contents T this st' = contents T other st
           \<and> contents T other st' = contents T other st
           \<and> (valid T this st \<longrightarrow>
                 objs st' = objs st \<and> dom (heap st') = dom (heap st)
               \<and> next_addr st' = next_addr st \<and> avail st' = avail st)
           \<and> (moved_from T this st \<longrightarrow>
                 get_dynamic this st' = Inr (Some (next_addr st))
               \<and> dom (heap st') = insert (next_addr st) (dom (heap st))
               \<and> next_addr st' = Suc (next_addr st))"
proof (cases "valid T this st")
  case True
  then have "\<not> moved_from T this st"
    by (auto simp add: moved_from_def valid_def)
  with copy_assign_reuse [OF assms(1-3) True] show ?thesis by blast
next
  case False
  with assms(5) have m: "moved_from T this st" "unat (ACTUAL_SIZE T) \<le> avail st" by auto
  from copy_assign_allocate [OF assms(1-4) m] False show ?thesis by blast
qed

theorem copy_assign_heap_witness:
  "\<not> use_static T_heap \<and> valid T_heap 0 st_heap \<and> heap_ok st_heap
   \<and> valid T_heap 1 st_heap
   \<and> moved_from T_heap 2 st_heap \<and> unat (ACTUAL_SIZE T_heap) \<le> avail st_heap
   \<and> (\<exists>st'. copy_assign T_heap 1 0 st_heap = Inr st'
          \<and> valid T_heap 1 st' \<and> contents T_heap 1 st' = Inr (replicate 104 187)
          \<and> objs st' = objs st_heap \<and> dom (heap st') = dom (heap st_heap)
          \<and> next_addr st' = next_addr st_heap)
   \<and> (\<exists>st'. copy_assign T_heap 2 0 st_heap = Inr st'
          \<and> valid T_heap 2 st' \<and> contents T_heap 2 st' = Inr (replicate 104 187)
          \<and> get_dynamic 2 st' = Inr (Some 3)
          \<and> dom (heap st') = insert 3 (dom (heap st_heap)))"
proof -
  have av: "unat (ACTUAL_SIZE T_heap) \<le> avail st_heap"
    by (simp add: T_heap_facts st_heap_def)
  have n: "next_addr st_heap = 3" by (simp add: st_heap_def)
  have ne1: "(1::nat) \<noteq> 0" and ne2: "(2::nat) \<noteq> 0" by simp_all
  have h1: "valid T_heap 1 st_heap
      \<or> (moved_from T_heap 1 st_heap \<and> unat (ACTUAL_SIZE T_heap) \<le> avail st_heap)"
    using st_heap_valid(2) by simp
  have h2: "valid T_heap 2 st_heap
      \<or> (moved_from T_heap 2 st_heap \<and> unat (ACTUAL_SIZE T_heap) \<le> avail st_heap)"
    using st_heap_valid(3) av by simp
  from copy_assign_heap [OF T_heap_facts(1) ne1 st_heap_valid(1) st_heap_valid(4) h1]
    st_heap_valid(2) st_heap_contents(1)
  have a: "\<exists>st'. copy_assign T_heap 1 0 st_heap = Inr st'
          \<and> valid T_heap 1 st' \<and> contents T_heap 1 st' = Inr (replicate 104 187)
          \<and> objs st' = objs st_heap \<and> dom (heap st') = dom (heap st_heap)
          \<and> next_addr st' = next_addr st_heap"
    by auto
  from copy_assign_heap [OF T_heap_facts(1) ne2 st_heap_valid(1) st_heap_valid(4) h2]
    st_heap_valid(3) st_heap_contents(1) n
  have b: "\<exists>st'. copy_assign T_heap 2 0 st_heap = Inr st'
          \<and> valid T_heap 2 st' \<and> contents T_heap 2 st' = Inr (replicate 104 187)
          \<and> get_dynamic 2 st' = Inr (Some 3)
          \<and> dom (heap st') = insert 3 (dom (heap st_heap))"
    by auto
  from T_heap_facts(1) st_heap_valid av a b show ?thesis by blast
qed

text \<open>
  C10: for inline buffers, move construction and move assignment leave the source as it
  was: it stays valid and every index in \<open>[0, actual_size())\<close> reads the same byte after
  the move as before.
\<close>

theorem static_move_keeps_source:
  assumes "use_static T" and "valid T src st"
  shows "(\<exists>st'. SmartBuffer_move T dst src st = Inr st'
            \<and> valid T src st' \<and> contents T src st' = contents T src st
            \<and> (\<forall>i. i < actual_size T \<longrightarrow> subscript T src i st' = subscript T src i st))
       \<and> (valid T dst st \<longrightarrow>
           (\<exists>st'. move_assign T dst src st = Inr st'
            \<and> valid T src st' \<and> contents T src st' = contents T src st
            \<and> (\<forall>i. i < actual_size T \<longrightarrow> subscript T src i st' = subscript T src i st)))"
proof -
  from assms obtain bs where s: "objs st src = Some (StaticBuffer bs)"
    "length bs = unat (ACTUAL_SIZE T)"
    by (auto simp add: valid_def split: option.splits storage.splits)
  let ?st' = "set_buffer dst (StaticBuffer bs) st"
  have keep: "valid T src ?st'" "contents T src ?st' = contents T src st"
    using assms(1) s by (simp_all add: mem_defs)
  then have sub: "\<forall>i. subscript T src i ?st' = subscript T src i st"
    by (simp add: subscript_contents)
  have ctor: "SmartBuffer_move T dst src st = Inr ?st'"
    using assms(1) s by (simp add: SmartBuffer_move_def get_static_def)
  have asg: "valid T dst st \<longrightarrow> move_assign T dst src st = Inr (if dst = src then st else ?st')"
    using assms(1) s
    by (auto simp add: move_assign_def get_static_def valid_def split: option.splits storage.splits)
  have "dst = src \<longrightarrow> ?st' = st"
    using s by (auto simp add: set_buffer_def fun_upd_idem)
  with asg have asg': "valid T dst st \<longrightarrow> move_assign T dst src st = Inr ?st'" by auto
  from ctor asg' keep sub show ?thesis by auto
qed

theorem static_move_keeps_source_witness:
  "use_static T_inline \<and> valid T_inline 0 st_inline \<and> valid T_inline 1 st_inline
   \<and> (\<exists>st'. SmartBuffer_move T_inline 2 0 st_inline = Inr st'
          \<and> contents T_inline 0 st' = Inr (replicate 16 170)
          \<and> subscript T_inline 0 15 st' = Inr 170)
   \<and> (\<exists>st'. move_assign T_inline 1 0 st_inline = Inr st'
          \<and> contents T_inline 0 st' = Inr (replicate 16 170)
          \<and> subscript T_inline 0 15 st' = Inr 170)"
proof -
  have i: "(15 :: size_t) < actual_size T_inline"
    by (simp add: actual_size_def T_inline_facts)
  have r: "subscript T_inline 0 15 st_inline = Inr 170"
    using st_inline_contents(1) by (simp add: subscript_contents)
  from static_move_keeps_source [OF T_inline_facts(1) st_inline_valid(1), of 2] i r
    st_inline_contents(1)
  have a: "\<exists>st'. SmartBuffer_move T_inline 2 0 st_inline = Inr st'
          \<and> contents T_inline 0 st' = Inr (replicate 16 170)
          \<and> subscript T_inline 0 15 st' = Inr 170"
    by auto
  from static_move_keeps_source [OF T_inline_facts(1) st_inline_valid(1), of 1] i r
    st_inline_contents(1) st_inline_valid(2)
  have b: "\<exists>st'. move_assign T_inline 1 0 st_inline = Inr st'
          \<and> contents T_inline 0 st' = Inr (replicate 16 170)
          \<and> subscript T_inline 0 15 st' = Inr 170"
    by auto
  from T_inline_facts(1) st_inline_valid a b show ?thesis by blast
qed

end
